theory Spec2Isabelle
  imports Main "HOL-Library.Word" "HOL-Library.Sublist"
begin

section \<open>Bytes, text and Python errors\<close>

text \<open>
  Python \<open>bytes\<close> objects are lists of 8-bit words. A Python \<open>str\<close> is a list of Unicode
  code points. Every exception the embedded code can raise is a constructor of
  \<open>py_error\<close>; a call that may raise returns \<open>py_error + 'a\<close>, with \<open>Inl\<close> the raise.
\<close>

type_synonym byte = "8 word"
type_synonym bytes = "byte list"
type_synonym pystr = "nat list"

datatype py_error = OverflowError | ValueError | IndexError | SocketError | ApiError

definition ascii :: "string \<Rightarrow> bytes" where
  "ascii s = map of_char s"

definition pytext :: "string \<Rightarrow> pystr" where
  "pytext s = map of_char s"

subsection \<open>Configuration constants (server.py, lines 28-32)\<close>

definition SAMPLE_RATE :: int where
  "SAMPLE_RATE = 16000"

definition CHANNELS :: int where
  "CHANNELS = 1"

definition SAMPLE_WIDTH :: int where
  "SAMPLE_WIDTH = 2"

definition CHUNK_SIZE :: nat where
  "CHUNK_SIZE = 1024"

definition END_RECORDING_SIGNAL :: bytes where
  "END_RECORDING_SIGNAL = ascii ''END_RECORDING_SIGNAL''"

section \<open>\<open>int.to_bytes(length, 'little')\<close>\<close>

text \<open>
  \<open>le_bytes k n\<close> is the \<open>k\<close> low-order base-256 digits of \<open>n\<close>, least significant first.
  Python raises \<open>OverflowError\<close> for a negative integer (the conversion is unsigned) and
  for one that does not fit in \<open>length\<close> bytes.
\<close>

fun le_bytes :: "nat \<Rightarrow> int \<Rightarrow> bytes" where
  "le_bytes 0 n = []"
| "le_bytes (Suc k) n = word_of_int (n mod 256) # le_bytes k (n div 256)"

definition to_bytes :: "int \<Rightarrow> nat \<Rightarrow> py_error + bytes" where
  "to_bytes n len =
     (if n < 0 then Inl OverflowError
      else if 256 ^ len \<le> n then Inl OverflowError
      else Inr (le_bytes len n))"

text \<open>Reading a little-endian field back (\<open>int.from_bytes(b, 'little')\<close>).\<close>

fun from_le :: "bytes \<Rightarrow> int" where
  "from_le [] = 0"
| "from_le (b # bs) = uint b + 256 * from_le bs"

definition field :: "bytes \<Rightarrow> nat \<Rightarrow> nat \<Rightarrow> bytes" where
  "field bs off n = take n (drop off bs)"

section \<open>\<open>create_wav_header\<close> (server.py, lines 48-63)\<close>

text \<open>
  The writes to the \<open>BytesIO\<close> header happen in source order; the first \<open>to_bytes\<close> that
  raises ends the function with that exception. \<open>wr\<close> appends the bytes of one
  \<open>header.write\<close> whose argument may raise.
\<close>

definition wr :: "py_error + bytes \<Rightarrow> (bytes \<Rightarrow> py_error + bytes) \<Rightarrow> bytes \<Rightarrow> py_error + bytes" where
  "wr piece k header = (case piece of Inl e \<Rightarrow> Inl e | Inr bs \<Rightarrow> k (header @ bs))"

definition create_wav_header :: "bytes \<Rightarrow> int \<Rightarrow> int \<Rightarrow> int \<Rightarrow> py_error + bytes" where
  "create_wav_header audio_data sample_rate num_channels sample_width =
     (let datasize = int (length audio_data) in
      (wr (Inr (ascii ''RIFF''))
      (wr (to_bytes (datasize + 36) 4)
      (wr (Inr (ascii ''WAVEfmt ''))
      (wr (to_bytes 16 4)
      (wr (to_bytes 1 2)
      (wr (to_bytes num_channels 2)
      (wr (to_bytes sample_rate 4)
      (wr (to_bytes (sample_rate * num_channels * sample_width) 4)
      (wr (to_bytes (num_channels * sample_width) 2)
      (wr (to_bytes (sample_width * 8) 2)
      (wr (Inr (ascii ''data''))
      (wr (to_bytes datasize 4)
      (\<lambda>header. Inr (header @ audio_data)))))))))))))) [])"

section \<open>Frame detection: \<open>in\<close> and \<open>split\<close> on bytes\<close>

text \<open>
  \<open>sep in data\<close> holds when \<open>sep\<close> occurs as a contiguous run of \<open>data\<close>.
\<close>

fun bytes_contains :: "bytes \<Rightarrow> bytes \<Rightarrow> bool" where
  "bytes_contains sep [] = (sep = [])"
| "bytes_contains sep (x # xs) = (prefix sep (x # xs) \<or> bytes_contains sep xs)"

text \<open>
  \<open>data.split(sep)\<close> cuts at the leftmost occurrence of \<open>sep\<close>, skips it, and goes on
  with what follows; it raises \<open>ValueError\<close> for an empty separator. Indexing the
  result at 0 raises \<open>IndexError\<close> on an empty list.
\<close>

fun split_from :: "bytes \<Rightarrow> bytes \<Rightarrow> bytes list" where
  "split_from sep [] = [[]]"
| "split_from sep (x # xs) =
     (if sep \<noteq> [] \<and> prefix sep (x # xs)
      then [] # split_from sep (drop (length sep) (x # xs))
      else (case split_from sep xs of [] \<Rightarrow> [[x]] | p # ps \<Rightarrow> (x # p) # ps))"

definition bytes_split :: "bytes \<Rightarrow> bytes \<Rightarrow> py_error + bytes list" where
  "bytes_split data sep = (if sep = [] then Inl ValueError else Inr (split_from sep data))"

definition index0 :: "'a list \<Rightarrow> py_error + 'a" where
  "index0 xs = (case xs of [] \<Rightarrow> Inl IndexError | x # _ \<Rightarrow> Inr x)"

section \<open>The client socket and the receive loop (server.py, lines 148-169)\<close>

text \<open>
  One accepted connection is described by what its successive \<open>conn.recv(CHUNK_SIZE)\<close>
  calls return: a chunk of bytes, or a raised \<open>socket.error\<close>. A peer that has closed
  makes \<open>recv\<close> return \<open>b''\<close>; a script that is used up stands for that.
  The loop leaves through one of three \<open>break\<close>s, recorded as the \<open>stop_reason\<close>.
  An exception other than \<open>socket.error\<close> inside the \<open>try\<close> is not caught by the loop
  and leaves it as \<open>Inl\<close>.
\<close>

datatype recv_result = Received bytes | RecvFailed

datatype stop_reason = PeerClosed | MarkerSeen | ReadError

fun receive_audio :: "recv_result list \<Rightarrow> bytes \<Rightarrow> py_error + (bytes \<times> stop_reason)" where
  "receive_audio [] audio_buffer = Inr (audio_buffer, PeerClosed)"
| "receive_audio (RecvFailed # rs) audio_buffer = Inr (audio_buffer, ReadError)"
| "receive_audio (Received data # rs) audio_buffer =
     (if data = [] then Inr (audio_buffer, PeerClosed)
      else if bytes_contains END_RECORDING_SIGNAL data then
        (case bytes_split data END_RECORDING_SIGNAL of
           Inl e \<Rightarrow> Inl e
         | Inr parts \<Rightarrow>
             (case index0 parts of
                Inl e \<Rightarrow> Inl e
              | Inr audio_part_before_signal \<Rightarrow>
                  Inr (audio_buffer @ audio_part_before_signal, MarkerSeen)))
      else receive_audio rs (audio_buffer @ data))"

section \<open>Collaborators, socket writes and the event trace\<close>

text \<open>
  What a session does to the outside world is a trace of events, in order: a call of
  the transcription collaborator with the container it is given, a call of the
  synthesis collaborator with the text it is given, bytes written to the client socket,
  and the close of the connection.

  The transcription collaborator (\<open>generate_content\<close> followed by \<open>response.text\<close>, with
  the fixed prompt) returns text or raises. The synthesis collaborator (\<open>convert\<close>)
  raises or returns a lazy stream; each pull of the stream yields a chunk or raises, and
  the stream ends where the list ends.

  \<open>send_budget\<close> says how many more bytes the peer takes: \<open>None\<close> is a peer that takes
  everything; with \<open>Some k\<close>, a \<open>sendall\<close> of more than \<open>k\<close> bytes writes \<open>k\<close> of them and
  raises \<open>socket.error\<close>.
\<close>

datatype event =
    TranscribeCall bytes
  | SynthCall pystr
  | Sent bytes
  | Closed

record world =
  send_budget :: "nat option"
  trace :: "event list"

record session =
  recv_script :: "recv_result list"
  peer_takes :: "nat option"
  transcribe :: "bytes \<Rightarrow> py_error + pystr"
  synthesize :: "pystr \<Rightarrow> py_error + (py_error + bytes) list"

definition log_event :: "event \<Rightarrow> world \<Rightarrow> world" where
  "log_event ev w = w\<lparr>trace := trace w @ [ev]\<rparr>"

definition sendall :: "world \<Rightarrow> bytes \<Rightarrow> py_error option \<times> world" where
  "sendall w chunk =
     (case send_budget w of
        None \<Rightarrow> (None, log_event (Sent chunk) w)
      | Some k \<Rightarrow>
          if length chunk \<le> k
          then (None, log_event (Sent chunk) (w\<lparr>send_budget := Some (k - length chunk)\<rparr>))
          else (Some SocketError,
                (if k = 0 then w else log_event (Sent (take k chunk)) w)\<lparr>send_budget := Some 0\<rparr>))"

text \<open>Observations of a trace.\<close>

fun sent_bytes :: "event list \<Rightarrow> bytes" where
  "sent_bytes [] = []"
| "sent_bytes (Sent b # es) = b @ sent_bytes es"
| "sent_bytes (_ # es) = sent_bytes es"

fun transcribe_calls :: "event list \<Rightarrow> bytes list" where
  "transcribe_calls [] = []"
| "transcribe_calls (TranscribeCall wav # es) = wav # transcribe_calls es"
| "transcribe_calls (_ # es) = transcribe_calls es"

fun synth_calls :: "event list \<Rightarrow> pystr list" where
  "synth_calls [] = []"
| "synth_calls (SynthCall t # es) = t # synth_calls es"
| "synth_calls (_ # es) = synth_calls es"

section \<open>\<open>generate_and_stream_elevenlabs_audio\<close> (server.py, lines 67-93)\<close>

text \<open>
  \<open>str.strip()\<close> removes leading and trailing whitespace, as \<open>str.isspace\<close> classifies
  code points.
\<close>

definition py_isspace :: "nat \<Rightarrow> bool" where
  "py_isspace c \<longleftrightarrow>
     (9 \<le> c \<and> c \<le> 13) \<or> (28 \<le> c \<and> c \<le> 32) \<or> c = 133 \<or> c = 160 \<or> c = 5760 \<or>
     (8192 \<le> c \<and> c \<le> 8202) \<or> c = 8232 \<or> c = 8233 \<or> c = 8239 \<or> c = 8287 \<or> c = 12288"

definition py_strip :: "pystr \<Rightarrow> pystr" where
  "py_strip t = rev (dropWhile py_isspace (rev (dropWhile py_isspace t)))"

text \<open>
  The \<open>for chunk in audio_stream\<close> loop: a raise of the stream or of \<open>sendall\<close> is caught
  by the enclosing \<open>except Exception\<close>, which ends the function.
\<close>

fun relay :: "(py_error + bytes) list \<Rightarrow> world \<Rightarrow> world" where
  "relay [] w = w"
| "relay (Inl e # rest) w = w"
| "relay (Inr chunk # rest) w =
     (if chunk \<noteq> [] then
        (case sendall w chunk of
           (Some e, w') \<Rightarrow> w'
         | (None, w') \<Rightarrow> relay rest w')
      else relay rest w)"

definition generate_and_stream_elevenlabs_audio :: "session \<Rightarrow> pystr \<Rightarrow> world \<Rightarrow> world" where
  "generate_and_stream_elevenlabs_audio s text w =
     (if py_strip text = [] then w
      else
        (let w1 = log_event (SynthCall text) w in
         case synthesize s text of
           Inl e \<Rightarrow> w1
         | Inr audio_stream \<Rightarrow> relay audio_stream w1))"

section \<open>\<open>process_conversation\<close> (server.py, lines 97-125)\<close>

definition process_conversation :: "session \<Rightarrow> bytes \<Rightarrow> world \<Rightarrow> world" where
  "process_conversation s audio_bytes w =
     (if audio_bytes = [] then w
      else
        (case create_wav_header audio_bytes SAMPLE_RATE CHANNELS SAMPLE_WIDTH of
           Inl e \<Rightarrow> w
         | Inr wav_data \<Rightarrow>
             (let w1 = log_event (TranscribeCall wav_data) w in
              case transcribe s wav_data of
                Inl e \<Rightarrow> w1
              | Inr gemini_response_text \<Rightarrow>
                  generate_and_stream_elevenlabs_audio s gemini_response_text w1)))"

section \<open>\<open>main\<close>: one connection, and the accept loop (server.py, lines 142-176)\<close>

text \<open>
  \<open>with conn:\<close> closes the connection on every way out of its body, also when the body
  raises; the exception then leaves \<open>main\<close>. The accept loop is run over the connections
  that arrive, in order, and gives the trace of each; an exception out of a session
  ends the server.
\<close>

definition handle_connection :: "session \<Rightarrow> py_error + event list" where
  "handle_connection s =
     (case receive_audio (recv_script s) [] of
        Inl e \<Rightarrow> Inl e
      | Inr (audio, why) \<Rightarrow>
          Inr (trace (log_event Closed
                 (process_conversation s audio \<lparr>send_budget = peer_takes s, trace = []\<rparr>))))"

fun serve :: "session list \<Rightarrow> py_error + event list list" where
  "serve [] = Inr []"
| "serve (s # ss) =
     (case handle_connection s of
        Inl e \<Rightarrow> Inl e
      | Inr tr \<Rightarrow> (case serve ss of Inl e \<Rightarrow> Inl e | Inr trs \<Rightarrow> Inr (tr # trs)))"

section \<open>Test doubles for the scenarios\<close>

text \<open>
  The collaborators of the end-to-end scenario: a transcription that answers \<open>hello\<close> and
  a synthesis that yields the chunks \<open>AA\<close> and \<open>BB\<close>; the client that sends
  \<open>b"\x01\x02" * 100\<close> and then the marker, and takes every byte written to it.
\<close>

definition mock_transcribe :: "bytes \<Rightarrow> py_error + pystr" where
  "mock_transcribe wav_data = Inr (pytext ''hello'')"

definition mock_synthesize :: "pystr \<Rightarrow> py_error + (py_error + bytes) list" where
  "mock_synthesize text = Inr [Inr (ascii ''AA''), Inr (ascii ''BB'')]"

definition e2e_payload :: bytes where
  "e2e_payload = concat (replicate 100 [1, 2])"

definition e2e_session :: session where
  "e2e_session =
     \<lparr>recv_script = [Received e2e_payload, Received END_RECORDING_SIGNAL],
      peer_takes = None,
      transcribe = mock_transcribe,
      synthesize = mock_synthesize\<rparr>"

section \<open>The container encoder\<close>

lemma from_le_le_bytes: "0 \<le> n \<Longrightarrow> n < 256 ^ k \<Longrightarrow> from_le (le_bytes k n) = n"
proof (induction k arbitrary: n)
  case 0
  then show ?case by simp
next
  case (Suc k)
  have "n div 256 < 256 ^ k"
    using Suc.prems by (simp add: div_less_iff_less_mult mult.commute)
  moreover have "0 \<le> n div 256"
    using Suc.prems by simp
  ultimately have "from_le (le_bytes k (n div 256)) = n div 256"
    by (rule Suc.IH [rotated])
  moreover have "uint (word_of_int (n mod 256) :: byte) = n mod 256"
    by (simp add: uint_word_of_int take_bit_eq_mod)
  ultimately show ?case by simp
qed

lemma from_le_field4: "0 \<le> n \<Longrightarrow> n < 2 ^ 32 \<Longrightarrow> from_le (le_bytes 4 n) = n"
  using from_le_le_bytes [of n 4] by simp

lemma length_le_bytes: "length (le_bytes k n) = k"
  by (induction k arbitrary: n) auto

lemma to_bytes_fits: "0 \<le> n \<Longrightarrow> n < 256 ^ len \<Longrightarrow> to_bytes n len = Inr (le_bytes len n)"
  by (simp add: to_bytes_def)

lemma wr_Inr: "wr (Inr bs) k header = k (header @ bs)"
  by (simp add: wr_def)

lemma to_bytes_consts:
  "to_bytes 16 4 = Inr [16, 0, 0, 0]"
  "to_bytes 1 2 = Inr [1, 0]"
  "to_bytes 16000 4 = Inr [128, 62, 0, 0]"
  "to_bytes 32000 4 = Inr [0, 125, 0, 0]"
  "to_bytes 2 2 = Inr [2, 0]"
  "to_bytes 16 2 = Inr [16, 0]"
  by (simp_all add: to_bytes_def eval_nat_numeral)

text \<open>
  With the system's constants, everything between the first size field and the last
  one is fixed: \<open>WAVEfmt \<close>, the length 16 of the format block, format tag 1 (PCM),
  1 channel, 16000 Hz, 32000 bytes per second, block align 2, 16 bits per sample,
  \<open>data\<close>.
\<close>

lemma create_wav_header_fixed:
  assumes "int (length payload) + 36 < 2 ^ 32"
  shows "create_wav_header payload SAMPLE_RATE CHANNELS SAMPLE_WIDTH =
         Inr (ascii ''RIFF'' @ le_bytes 4 (int (length payload) + 36) @
              ascii ''WAVEfmt '' @
              [16, 0, 0, 0, 1, 0, 1, 0, 128, 62, 0, 0, 0, 125, 0, 0, 2, 0, 16, 0] @
              ascii ''data'' @ le_bytes 4 (int (length payload)) @ payload)"
proof -
  have a: "to_bytes (int (length payload) + 36) 4 = Inr (le_bytes 4 (int (length payload) + 36))"
    using assms by (intro to_bytes_fits) simp_all
  have b: "to_bytes (int (length payload)) 4 = Inr (le_bytes 4 (int (length payload)))"
    using assms by (intro to_bytes_fits) simp_all
  show ?thesis
    unfolding create_wav_header_def Let_def SAMPLE_RATE_def CHANNELS_def SAMPLE_WIDTH_def
    by (simp only: a b wr_Inr mult_1_right mult_1 to_bytes_consts append_assoc append.simps
          arith_simps)
qed

text \<open>
  C1 (as amended). For every payload whose length plus 36 fits the 4-byte size field
  (\<open>len(payload) + 36 < 2^32\<close>), the encoder with the system's sample rate, channel
  count and sample width returns a 44-byte header followed by the unmodified payload. The
  header reads: \<open>RIFF\<close>, total size minus 8 = \<open>len(payload) + 36\<close>, \<open>WAVEfmt \<close>, format
  block length 16, format tag 1 (PCM), the channel count, the sample rate, byte rate =
  rate * channels * width, block align = channels * width, bits per sample = width * 8,
  \<open>data\<close>, data size = \<open>len(payload)\<close>; every number little-endian.
\<close>

theorem create_wav_header_layout:
  assumes "int (length payload) + 36 < 2 ^ 32"
  shows "\<exists>header.
     create_wav_header payload SAMPLE_RATE CHANNELS SAMPLE_WIDTH = Inr (header @ payload) \<and>
     length header = 44 \<and>
     field header 0 4 = ascii ''RIFF'' \<and>
     from_le (field header 4 4) = int (length payload) + 36 \<and>
     field header 8 8 = ascii ''WAVEfmt '' \<and>
     from_le (field header 16 4) = 16 \<and>
     from_le (field header 20 2) = 1 \<and>
     from_le (field header 22 2) = CHANNELS \<and>
     from_le (field header 24 4) = SAMPLE_RATE \<and>
     from_le (field header 28 4) = SAMPLE_RATE * CHANNELS * SAMPLE_WIDTH \<and>
     from_le (field header 32 2) = CHANNELS * SAMPLE_WIDTH \<and>
     from_le (field header 34 2) = SAMPLE_WIDTH * 8 \<and>
     field header 36 4 = ascii ''data'' \<and>
     from_le (field header 40 4) = int (length payload)"
proof -
  let ?n = "int (length payload)"
  let ?h = "ascii ''RIFF'' @ le_bytes 4 (?n + 36) @ ascii ''WAVEfmt '' @
            [16, 0, 0, 0, 1, 0, 1, 0, 128, 62, 0, 0, 0, 125, 0, 0, 2, 0, 16, 0] @
            ascii ''data'' @ le_bytes 4 ?n"
  have r: "create_wav_header payload SAMPLE_RATE CHANNELS SAMPLE_WIDTH = Inr (?h @ payload)"
    using create_wav_header_fixed [OF assms] by simp
  have s1: "from_le (le_bytes 4 (?n + 36)) = ?n + 36"
    using assms by (intro from_le_field4) simp_all
  have s2: "from_le (le_bytes 4 ?n) = ?n"
    using assms by (intro from_le_field4) simp_all
  obtain a b c d where x: "le_bytes 4 (?n + 36) = [a, b, c, d]"
    by (simp add: eval_nat_numeral)
  obtain a' b' c' d' where y: "le_bytes 4 ?n = [a', b', c', d']"
    by (simp add: eval_nat_numeral)
  have l: "length ?h = 44"
    by (simp add: ascii_def length_le_bytes)
  have f: "field ?h 0 4 = ascii ''RIFF''" "field ?h 4 4 = le_bytes 4 (?n + 36)"
    "field ?h 8 8 = ascii ''WAVEfmt ''" "field ?h 16 4 = [16, 0, 0, 0]"
    "field ?h 20 2 = [1, 0]" "field ?h 22 2 = [1, 0]" "field ?h 24 4 = [128, 62, 0, 0]"
    "field ?h 28 4 = [0, 125, 0, 0]" "field ?h 32 2 = [2, 0]" "field ?h 34 2 = [16, 0]"
    "field ?h 36 4 = ascii ''data''" "field ?h 40 4 = le_bytes 4 ?n"
    unfolding x y by (simp_all add: field_def ascii_def)
  show ?thesis
    apply (rule exI [of _ ?h])
    apply (simp only: r l f s1 s2)
    apply (simp add: SAMPLE_RATE_def CHANNELS_def SAMPLE_WIDTH_def)
    done
qed

theorem create_wav_header_layout_witness:
  "int (length [1, 2 :: byte]) + 36 < 2 ^ 32 \<and>
   (\<exists>header.
      create_wav_header [1, 2] SAMPLE_RATE CHANNELS SAMPLE_WIDTH = Inr (header @ [1, 2]) \<and>
      length header = 44 \<and>
      from_le (field header 4 4) = 38 \<and>
      from_le (field header 40 4) = 2)"
proof -
  have h: "int (length [1, 2 :: byte]) + 36 < 2 ^ 32"
    by simp
  from create_wav_header_layout [OF h] obtain header where
    "create_wav_header [1, 2] SAMPLE_RATE CHANNELS SAMPLE_WIDTH = Inr (header @ [1, 2])"
    "length header = 44" "from_le (field header 4 4) = int (length [1, 2 :: byte]) + 36"
    "from_le (field header 40 4) = int (length [1, 2 :: byte])"
    by blast
  then show ?thesis
    by (intro conjI exI [of _ header]) simp_all
qed

text \<open>
  C1 as stated fails for a non-empty payload of \<open>2^32 - 36\<close> bytes: the first size
  field does not fit 4 bytes, \<open>to_bytes\<close> raises, and no container is returned.
\<close>

theorem create_wav_header_overflow:
  "replicate 4294967260 (0 :: byte) \<noteq> [] \<and>
   create_wav_header (replicate 4294967260 0) SAMPLE_RATE CHANNELS SAMPLE_WIDTH = Inl OverflowError"
  by (simp add: create_wav_header_def wr_def to_bytes_def)

section \<open>The frame detector and the audio accumulator\<close>

lemma bytes_contains_iff: "bytes_contains sep data \<longleftrightarrow> (\<exists>pre post. data = pre @ sep @ post)"
proof (induction data)
  case Nil
  then show ?case by auto
next
  case (Cons x xs)
  show ?case
  proof
    assume "bytes_contains sep (x # xs)"
    then consider "prefix sep (x # xs)" | "bytes_contains sep xs" by auto
    then show "\<exists>pre post. x # xs = pre @ sep @ post"
    proof cases
      case 1
      then obtain post where "x # xs = sep @ post" by (auto simp: prefix_def)
      then have "x # xs = [] @ sep @ post" by simp
      then show ?thesis by blast
    next
      case 2
      then obtain pre post where "xs = pre @ sep @ post" using Cons.IH by blast
      then have "x # xs = (x # pre) @ sep @ post" by simp
      then show ?thesis by blast
    qed
  next
    assume "\<exists>pre post. x # xs = pre @ sep @ post"
    then obtain pre post where e: "x # xs = pre @ sep @ post" by blast
    show "bytes_contains sep (x # xs)"
    proof (cases pre)
      case Nil
      then have "prefix sep (x # xs)" using e by (simp add: prefix_def)
      then show ?thesis by simp
    next
      case (Cons y ys)
      then have "xs = ys @ sep @ post" using e by simp
      then have "bytes_contains sep xs" using Cons.IH by blast
      then show ?thesis by simp
    qed
  qed
qed

lemma bytes_contains_short: "length data < length sep \<Longrightarrow> \<not> bytes_contains sep data"
proof
  assume l: "length data < length sep" and "bytes_contains sep data"
  then obtain pre post where "data = pre @ sep @ post" by (auto simp: bytes_contains_iff)
  then have "length data = length pre + length sep + length post" by simp
  then show False using l by simp
qed

lemma prefix_shorter:
  assumes "prefix sep (a @ b)" "length sep \<le> length a"
  shows "prefix sep a"
  using assms by (metis prefix_append prefix_def append_eq_append_conv_if append_take_drop_id)

lemma split_from_first:
  assumes "sep \<noteq> []" "\<not> bytes_contains sep (pre @ butlast sep)"
  shows "split_from sep (pre @ sep @ post) = pre # split_from sep post"
  using assms(2)
proof (induction pre)
  case Nil
  obtain s ss where s: "sep = s # ss" using assms(1) by (cases sep) auto
  have "split_from sep (s # (ss @ post)) = [] # split_from sep (drop (length sep) (s # (ss @ post)))"
    by (simp add: s)
  then show ?case by (simp add: s)
next
  case (Cons x pre)
  have np: "\<not> prefix sep (x # pre @ sep @ post)"
  proof
    assume p: "prefix sep (x # pre @ sep @ post)"
    have "x # pre @ sep @ post = ((x # pre) @ butlast sep) @ (last sep # post)"
      using append_butlast_last_id [OF assms(1)]
      by (metis append.assoc append_Cons append_Nil)
    moreover have "length sep \<le> length ((x # pre) @ butlast sep)" by simp
    ultimately have "prefix sep ((x # pre) @ butlast sep)"
      using p prefix_shorter by metis
    then have "bytes_contains sep ((x # pre) @ butlast sep)" by simp
    then show False using Cons.prems by simp
  qed
  have "\<not> bytes_contains sep (pre @ butlast sep)" using Cons.prems by simp
  then have "split_from sep (pre @ sep @ post) = pre # split_from sep post" by (rule Cons.IH)
  then show ?case using np by simp
qed

lemma first_occurrence:
  assumes "sep \<noteq> []" "bytes_contains sep data"
  shows "\<exists>pre post. data = pre @ sep @ post \<and> \<not> bytes_contains sep (pre @ butlast sep)"
  using assms(2)
proof (induction data)
  case Nil
  then show ?case using assms(1) by simp
next
  case (Cons x xs)
  show ?case
  proof (cases "prefix sep (x # xs)")
    case True
    then obtain post where "x # xs = [] @ sep @ post" by (auto simp: prefix_def)
    moreover have "\<not> bytes_contains sep ([] @ butlast sep)"
      using assms(1) by (simp add: bytes_contains_short)
    ultimately show ?thesis by blast
  next
    case False
    then have "bytes_contains sep xs" using Cons.prems by simp
    then obtain pre post where e: "xs = pre @ sep @ post" and n: "\<not> bytes_contains sep (pre @ butlast sep)"
      using Cons.IH by blast
    have "\<not> prefix sep ((x # pre) @ butlast sep)"
    proof
      assume "prefix sep ((x # pre) @ butlast sep)"
      then have "prefix sep (((x # pre) @ butlast sep) @ (last sep # post))"
        using prefix_prefix by blast
      moreover have "((x # pre) @ butlast sep) @ (last sep # post) = x # xs"
        using e append_butlast_last_id [OF assms(1)]
        by (metis append.assoc append_Cons append_Nil)
      ultimately have "prefix sep (x # xs)" by simp
      then show False using False by simp
    qed
    then have "\<not> bytes_contains sep ((x # pre) @ butlast sep)" using n by simp
    moreover have "x # xs = (x # pre) @ sep @ post" using e by simp
    ultimately show ?thesis by blast
  qed
qed

lemma END_nonempty: "END_RECORDING_SIGNAL \<noteq> []"
  by (simp add: END_RECORDING_SIGNAL_def ascii_def)

lemma receive_audio_marker:
  assumes "\<not> bytes_contains END_RECORDING_SIGNAL (pre @ butlast END_RECORDING_SIGNAL)"
  shows "receive_audio (Received (pre @ END_RECORDING_SIGNAL @ post) # rest) buf = Inr (buf @ pre, MarkerSeen)"
proof -
  let ?d = "pre @ END_RECORDING_SIGNAL @ post"
  have 1: "?d \<noteq> []" using END_nonempty by simp
  have 2: "bytes_contains END_RECORDING_SIGNAL ?d" by (auto simp: bytes_contains_iff)
  have 3: "bytes_split ?d END_RECORDING_SIGNAL = Inr (pre # split_from END_RECORDING_SIGNAL post)"
    using split_from_first [OF END_nonempty assms] by (simp add: bytes_split_def END_nonempty)
  show ?thesis
    by (simp only: receive_audio.simps 1 2 3 if_True if_False sum.case index0_def list.case)
qed

lemma receive_audio_chunks:
  assumes "\<forall>c\<in>set chunks. c \<noteq> [] \<and> \<not> bytes_contains END_RECORDING_SIGNAL c"
  shows "receive_audio (map Received chunks @ rest) buf = receive_audio rest (buf @ concat chunks)"
  using assms by (induction chunks arbitrary: buf) auto

lemma length_END: "length END_RECORDING_SIGNAL = 20"
  by (simp add: END_RECORDING_SIGNAL_def ascii_def)

text \<open>
  C2. A received chunk that contains the termination marker ends the receive loop
  (whatever would be received after it is not read). With \<open>pre\<close> the bytes of the chunk
  before the first occurrence of the marker, the buffer becomes what was accumulated
  so far followed by \<open>pre\<close>; the bytes \<open>post\<close> after the marker are not appended. When the
  marker is a chunk of its own, the audio is the concatenation of the prior chunks.
  The prior chunks are the ones the loop appended whole: non-empty (an empty read is
  the peer closing) and without the marker.
\<close>

theorem marker_chunk_cut:
  assumes "\<forall>c\<in>set chunks. c \<noteq> [] \<and> \<not> bytes_contains END_RECORDING_SIGNAL c"
    and "bytes_contains END_RECORDING_SIGNAL data"
  shows "(\<exists>pre post.
            data = pre @ END_RECORDING_SIGNAL @ post \<and>
            \<not> bytes_contains END_RECORDING_SIGNAL (pre @ butlast END_RECORDING_SIGNAL) \<and>
            receive_audio (map Received chunks @ Received data # rest) buf =
              Inr (buf @ concat chunks @ pre, MarkerSeen)) \<and>
         (data = END_RECORDING_SIGNAL \<longrightarrow>
            receive_audio (map Received chunks @ Received data # rest) [] =
              Inr (concat chunks, MarkerSeen))"
proof -
  obtain pre post where d: "data = pre @ END_RECORDING_SIGNAL @ post"
    and n: "\<not> bytes_contains END_RECORDING_SIGNAL (pre @ butlast END_RECORDING_SIGNAL)"
    using first_occurrence [OF END_nonempty assms(2)] by blast
  have r: "receive_audio (map Received chunks @ Received data # rest) b =
           Inr (b @ concat chunks @ pre, MarkerSeen)" for b
    unfolding d receive_audio_chunks [OF assms(1)] receive_audio_marker [OF n] by simp
  have "receive_audio (map Received chunks @ Received data # rest) [] =
          Inr (concat chunks, MarkerSeen)" if "data = END_RECORDING_SIGNAL"
  proof -
    have "length data = length pre + length END_RECORDING_SIGNAL + length post"
      unfolding d by simp
    then have "pre = []" using that by simp
    then show ?thesis using r [of "[]"] by simp
  qed
  then show ?thesis using d n r by blast
qed

theorem marker_chunk_cut_witness:
  "[1, 2 :: byte] \<noteq> [] \<and> \<not> bytes_contains END_RECORDING_SIGNAL [1, 2] \<and>
   bytes_contains END_RECORDING_SIGNAL ([3] @ END_RECORDING_SIGNAL @ [4]) \<and>
   (\<exists>pre post.
      [3] @ END_RECORDING_SIGNAL @ [4] = pre @ END_RECORDING_SIGNAL @ post \<and>
      \<not> bytes_contains END_RECORDING_SIGNAL (pre @ butlast END_RECORDING_SIGNAL) \<and>
      receive_audio (map Received [[1, 2]] @ Received ([3] @ END_RECORDING_SIGNAL @ [4]) # [Received [5]]) [] =
        Inr ([] @ concat [[1, 2]] @ pre, MarkerSeen))"
proof -
  have h1: "\<forall>c\<in>set [[1, 2 :: byte]]. c \<noteq> [] \<and> \<not> bytes_contains END_RECORDING_SIGNAL c"
    by (simp add: bytes_contains_short length_END del: bytes_contains.simps)
  have h2: "bytes_contains END_RECORDING_SIGNAL ([3] @ END_RECORDING_SIGNAL @ [4])"
    unfolding bytes_contains_iff by blast
  show ?thesis
    using h1 h2 marker_chunk_cut [OF h1 h2, of "[Received [5]]" "[]"] by auto
qed

text \<open>
  C6. For every byte sequence \<open>audio\<close> and every way of cutting it into received chunks
  none of which contains the marker, the buffer at termination is \<open>audio\<close>: when the
  peer closes, when the marker then arrives as a chunk of its own, and when a read then
  fails; in general the loop over the chunks is the loop started on the buffer extended
  by \<open>audio\<close>. A received chunk is non-empty, since \<open>recv\<close> returns \<open>b''\<close> only for a
  closed peer.
\<close>

theorem accumulate_chunks:
  assumes "concat chunks = audio"
    and "\<forall>c\<in>set chunks. c \<noteq> [] \<and> \<not> bytes_contains END_RECORDING_SIGNAL c"
  shows "receive_audio (map Received chunks) [] = Inr (audio, PeerClosed) \<and>
         receive_audio (map Received chunks @ Received END_RECORDING_SIGNAL # rest) [] =
           Inr (audio, MarkerSeen) \<and>
         receive_audio (map Received chunks @ RecvFailed # rest) [] = Inr (audio, ReadError) \<and>
         (\<forall>more buf. receive_audio (map Received chunks @ more) buf =
                      receive_audio more (buf @ audio))"
proof -
  have n: "\<not> bytes_contains END_RECORDING_SIGNAL ([] @ butlast END_RECORDING_SIGNAL)"
    using END_nonempty by (simp add: bytes_contains_short)
  have m: "receive_audio (Received END_RECORDING_SIGNAL # rest) b = Inr (b, MarkerSeen)" for b
    using receive_audio_marker [OF n, of "[]" rest b] by simp
  have g: "receive_audio (map Received chunks @ more) b = receive_audio more (b @ audio)" for more b
    unfolding receive_audio_chunks [OF assms(2)] using assms(1) by simp
  have "receive_audio (map Received chunks) [] = Inr (audio, PeerClosed)"
    using g [of "[]" "[]"] by simp
  moreover have "receive_audio (map Received chunks @ Received END_RECORDING_SIGNAL # rest) [] =
      Inr (audio, MarkerSeen)"
    unfolding g m by simp
  moreover have "receive_audio (map Received chunks @ RecvFailed # rest) [] = Inr (audio, ReadError)"
    unfolding g by simp
  ultimately show ?thesis using g by blast
qed

theorem accumulate_chunks_witness:
  "concat [[1], [2, 3 :: byte]] = [1, 2, 3] \<and>
   \<not> bytes_contains END_RECORDING_SIGNAL [1] \<and> \<not> bytes_contains END_RECORDING_SIGNAL [2, 3] \<and>
   receive_audio (map Received [[1], [2, 3]]) [] = Inr ([1, 2, 3], PeerClosed) \<and>
   receive_audio (map Received [[1], [2, 3]] @ Received END_RECORDING_SIGNAL # []) [] =
     Inr ([1, 2, 3], MarkerSeen)"
proof -
  have h1: "concat [[1], [2, 3 :: byte]] = [1, 2, 3]"
    by simp
  have h2: "\<forall>c\<in>set [[1], [2, 3 :: byte]]. c \<noteq> [] \<and> \<not> bytes_contains END_RECORDING_SIGNAL c"
    by (simp add: bytes_contains_short length_END del: bytes_contains.simps)
  show ?thesis
    using h1 h2 accumulate_chunks [OF h1 h2, of "[]"] by auto
qed

lemma marker_seen_decompose:
  "receive_audio script buf = Inr (audio, MarkerSeen) \<Longrightarrow>
   \<exists>chunks data rest. script = map Received chunks @ Received data # rest \<and>
     (\<forall>c\<in>set chunks. c \<noteq> [] \<and> \<not> bytes_contains END_RECORDING_SIGNAL c) \<and>
     bytes_contains END_RECORDING_SIGNAL data"
proof (induction script buf rule: receive_audio.induct)
  case (1 audio_buffer)
  then show ?case by simp
next
  case (2 rs audio_buffer)
  then show ?case by simp
next
  case (3 data rs audio_buffer)
  show ?case
  proof (cases "bytes_contains END_RECORDING_SIGNAL data")
    case True
    then have "Received data # rs = map Received [] @ Received data # rs \<and>
      (\<forall>c\<in>set ([] :: bytes list). c \<noteq> [] \<and> \<not> bytes_contains END_RECORDING_SIGNAL c) \<and>
      bytes_contains END_RECORDING_SIGNAL data" by simp
    then show ?thesis by blast
  next
    case False
    have ne: "data \<noteq> []" using "3.prems" by (auto split: if_splits)
    then have "receive_audio rs (audio_buffer @ data) = Inr (audio, MarkerSeen)"
      using "3.prems" False by simp
    then obtain chunks d rest where s: "rs = map Received chunks @ Received d # rest"
      and c: "\<forall>c\<in>set chunks. c \<noteq> [] \<and> \<not> bytes_contains END_RECORDING_SIGNAL c"
      and m: "bytes_contains END_RECORDING_SIGNAL d"
      using "3.IH" ne False by blast
    have "Received data # rs = map Received (data # chunks) @ Received d # rest"
      using s by simp
    moreover have "\<forall>c\<in>set (data # chunks). c \<noteq> [] \<and> \<not> bytes_contains END_RECORDING_SIGNAL c"
      using c ne False by simp
    ultimately show ?thesis using m by blast
  qed
qed

text \<open>
  C9. The loop stops on the marker exactly when some chunk it reaches contains the
  marker whole. A stream that carries the marker cut across two consecutive chunks
  does not stop on it: the marker's bytes are appended as audio, and the loop ends only
  when the peer closes.
\<close>

theorem marker_detected_iff_within_chunk:
  "((\<exists>audio. receive_audio script buf = Inr (audio, MarkerSeen)) \<longleftrightarrow>
    (\<exists>chunks data rest.
       script = map Received chunks @ Received data # rest \<and>
       (\<forall>c\<in>set chunks. c \<noteq> [] \<and> \<not> bytes_contains END_RECORDING_SIGNAL c) \<and>
       bytes_contains END_RECORDING_SIGNAL data)) \<and>
   bytes_contains END_RECORDING_SIGNAL
     (concat [[1, 2] @ ascii ''END_RECORD'', ascii ''ING_SIGNAL'' @ [3]]) \<and>
   receive_audio [Received ([1, 2] @ ascii ''END_RECORD''), Received (ascii ''ING_SIGNAL'' @ [3])] [] =
     Inr ([1, 2] @ END_RECORDING_SIGNAL @ [3], PeerClosed)"
proof -
  have a: "(\<exists>audio. receive_audio script buf = Inr (audio, MarkerSeen)) \<longleftrightarrow>
    (\<exists>chunks data rest.
       script = map Received chunks @ Received data # rest \<and>
       (\<forall>c\<in>set chunks. c \<noteq> [] \<and> \<not> bytes_contains END_RECORDING_SIGNAL c) \<and>
       bytes_contains END_RECORDING_SIGNAL data)"
  proof
    assume "\<exists>audio. receive_audio script buf = Inr (audio, MarkerSeen)"
    then show "\<exists>chunks data rest.
       script = map Received chunks @ Received data # rest \<and>
       (\<forall>c\<in>set chunks. c \<noteq> [] \<and> \<not> bytes_contains END_RECORDING_SIGNAL c) \<and>
       bytes_contains END_RECORDING_SIGNAL data"
      using marker_seen_decompose by blast
  next
    assume "\<exists>chunks data rest.
       script = map Received chunks @ Received data # rest \<and>
       (\<forall>c\<in>set chunks. c \<noteq> [] \<and> \<not> bytes_contains END_RECORDING_SIGNAL c) \<and>
       bytes_contains END_RECORDING_SIGNAL data"
    then obtain chunks data rest where s: "script = map Received chunks @ Received data # rest"
      and c: "\<forall>c\<in>set chunks. c \<noteq> [] \<and> \<not> bytes_contains END_RECORDING_SIGNAL c"
      and m: "bytes_contains END_RECORDING_SIGNAL data"
      by blast
    obtain pre post where d: "data = pre @ END_RECORDING_SIGNAL @ post"
      and n: "\<not> bytes_contains END_RECORDING_SIGNAL (pre @ butlast END_RECORDING_SIGNAL)"
      using first_occurrence [OF END_nonempty m] by blast
    have "receive_audio script buf = Inr ((buf @ concat chunks) @ pre, MarkerSeen)"
      unfolding s d receive_audio_chunks [OF c] receive_audio_marker [OF n] by simp
    then show "\<exists>audio. receive_audio script buf = Inr (audio, MarkerSeen)" by blast
  qed
  have e: "ascii ''END_RECORD'' @ ascii ''ING_SIGNAL'' = END_RECORDING_SIGNAL"
    by (simp add: END_RECORDING_SIGNAL_def ascii_def)
  have b: "bytes_contains END_RECORDING_SIGNAL
     (concat [[1, 2] @ ascii ''END_RECORD'', ascii ''ING_SIGNAL'' @ [3]])"
    unfolding bytes_contains_iff
    by (rule exI [of _ "[1, 2]"], rule exI [of _ "[3]"]) (simp add: e [symmetric])
  have c1: "\<not> bytes_contains END_RECORDING_SIGNAL ([1, 2] @ ascii ''END_RECORD'')"
    by (rule bytes_contains_short) (simp add: length_END ascii_def)
  have c2: "\<not> bytes_contains END_RECORDING_SIGNAL (ascii ''ING_SIGNAL'' @ [3])"
    by (rule bytes_contains_short) (simp add: length_END ascii_def)
  have c: "receive_audio [Received ([1, 2] @ ascii ''END_RECORD''), Received (ascii ''ING_SIGNAL'' @ [3])] [] =
     Inr ([1, 2] @ END_RECORDING_SIGNAL @ [3], PeerClosed)"
    using c1 c2 by (simp add: e [symmetric])
  show ?thesis using a b c by blast
qed

theorem marker_detected_iff_within_chunk_witness:
  "\<exists>audio. receive_audio (map Received [[1]] @ Received END_RECORDING_SIGNAL # []) [7] = Inr (audio, MarkerSeen)"
proof -
  have h1: "\<forall>c\<in>set [[1 :: byte]]. c \<noteq> [] \<and> \<not> bytes_contains END_RECORDING_SIGNAL c"
    by (simp add: bytes_contains_short length_END del: bytes_contains.simps)
  have h2: "bytes_contains END_RECORDING_SIGNAL END_RECORDING_SIGNAL"
    unfolding bytes_contains_iff by (rule exI [of _ "[]"], rule exI [of _ "[]"]) simp
  have "\<exists>chunks data rest.
       map Received [[1]] @ Received END_RECORDING_SIGNAL # [] = map Received chunks @ Received data # rest \<and>
       (\<forall>c\<in>set chunks. c \<noteq> [] \<and> \<not> bytes_contains END_RECORDING_SIGNAL c) \<and>
       bytes_contains END_RECORDING_SIGNAL data"
    using h1 h2 by blast
  then show ?thesis
    using marker_detected_iff_within_chunk
      [of "map Received [[1]] @ Received END_RECORDING_SIGNAL # []" "[7]"] by blast
qed

section \<open>The conversation orchestrator\<close>

lemma sent_bytes_append: "sent_bytes (a @ b) = sent_bytes a @ sent_bytes b"
  by (induction a rule: sent_bytes.induct) auto

lemma sent_bytes_map_Sent: "sent_bytes (map Sent cs) = concat cs"
  by (induction cs) auto

lemma synth_calls_append: "synth_calls (a @ b) = synth_calls a @ synth_calls b"
  by (induction a rule: synth_calls.induct) auto

lemma synth_calls_map_Sent: "synth_calls (map Sent cs) = []"
  by (induction cs) auto

lemma transcribe_calls_append: "transcribe_calls (a @ b) = transcribe_calls a @ transcribe_calls b"
  by (induction a rule: transcribe_calls.induct) auto

lemma concat_filter_nonempty: "concat (filter (\<lambda>c. c \<noteq> []) cs) = concat cs"
  by (induction cs) auto

lemma relay_unlimited:
  "send_budget w = None \<Longrightarrow>
   relay (map Inr chunks @ tail) w =
   relay tail (w\<lparr>trace := trace w @ map Sent (filter (\<lambda>c. c \<noteq> []) chunks)\<rparr>)"
proof (induction chunks arbitrary: w)
  case Nil
  then show ?case by simp
next
  case (Cons c cs)
  show ?case
  proof (cases "c = []")
    case True
    then show ?thesis using Cons by simp
  next
    case False
    let ?w = "log_event (Sent c) w"
    have b: "send_budget ?w = None" using Cons.prems by (simp add: log_event_def)
    have "relay (map Inr (c # cs) @ tail) w = relay (map Inr cs @ tail) ?w"
      using False Cons.prems by (simp add: sendall_def)
    also have "\<dots> = relay tail (?w\<lparr>trace := trace ?w @ map Sent (filter (\<lambda>c. c \<noteq> []) cs)\<rparr>)"
      by (rule Cons.IH [OF b])
    finally show ?thesis using False by (simp add: log_event_def)
  qed
qed

lemma stream_unlimited:
  assumes "py_strip text \<noteq> []" "synthesize s text = Inr (map Inr chunks @ tail)"
    "send_budget w = None" "tail = [] \<or> (\<exists>e rest. tail = Inl e # rest)"
  shows "generate_and_stream_elevenlabs_audio s text w =
         w\<lparr>trace := trace w @ SynthCall text # map Sent (filter (\<lambda>c. c \<noteq> []) chunks)\<rparr>"
proof -
  let ?w1 = "log_event (SynthCall text) w"
  have b: "send_budget ?w1 = None" using assms(3) by (simp add: log_event_def)
  have t: "relay tail v = v" for v using assms(4) by auto
  have "generate_and_stream_elevenlabs_audio s text w = relay (map Inr chunks @ tail) ?w1"
    using assms(1,2) by (simp add: generate_and_stream_elevenlabs_audio_def Let_def)
  also have "\<dots> = ?w1\<lparr>trace := trace ?w1 @ map Sent (filter (\<lambda>c. c \<noteq> []) chunks)\<rparr>"
    unfolding relay_unlimited [OF b] t ..
  finally show ?thesis by (simp add: log_event_def)
qed

text \<open>
  C5. The synthesis stream yields the chunks \<open>chunks\<close> (N of them) and raises at the
  next pull; the client takes what is written. Then what is written to the socket, after
  what had been written before, is exactly those N chunks in the order produced
  (\<open>concat chunks\<close>; a zero-length chunk has no bytes and is not handed to \<open>sendall\<close>),
  nothing of what the stream would have yielded later, and the synthesis collaborator
  is called once.
\<close>

theorem synthesis_failure_keeps_prefix:
  assumes "py_strip text \<noteq> []"
    and "synthesize s text = Inr (map Inr chunks @ Inl e # rest)"
    and "send_budget w = None"
  shows "trace (generate_and_stream_elevenlabs_audio s text w) =
           trace w @ SynthCall text # map Sent (filter (\<lambda>c. c \<noteq> []) chunks) \<and>
         sent_bytes (trace (generate_and_stream_elevenlabs_audio s text w)) =
           sent_bytes (trace w) @ concat chunks \<and>
         synth_calls (trace (generate_and_stream_elevenlabs_audio s text w)) =
           synth_calls (trace w) @ [text]"
proof -
  have g: "generate_and_stream_elevenlabs_audio s text w =
         w\<lparr>trace := trace w @ SynthCall text # map Sent (filter (\<lambda>c. c \<noteq> []) chunks)\<rparr>"
    using assms by (intro stream_unlimited) auto
  show ?thesis
    unfolding g
    by (simp add: sent_bytes_append sent_bytes_map_Sent concat_filter_nonempty
          synth_calls_append synth_calls_map_Sent)
qed

text \<open>
  C10. A zero-length chunk of the synthesis stream is not written and does not end the
  relay: the writes are the non-empty chunks, in order, also those after an empty one,
  and the bytes sent are their concatenation.
\<close>

theorem empty_chunks_skipped:
  assumes "py_strip text \<noteq> []"
    and "synthesize s text = Inr (map Inr chunks)"
    and "send_budget w = None"
  shows "trace (generate_and_stream_elevenlabs_audio s text w) =
           trace w @ SynthCall text # map Sent (filter (\<lambda>c. c \<noteq> []) chunks) \<and>
         sent_bytes (trace (generate_and_stream_elevenlabs_audio s text w)) =
           sent_bytes (trace w) @ concat (filter (\<lambda>c. c \<noteq> []) chunks)"
proof -
  have g: "generate_and_stream_elevenlabs_audio s text w =
         w\<lparr>trace := trace w @ SynthCall text # map Sent (filter (\<lambda>c. c \<noteq> []) chunks)\<rparr>"
    using assms stream_unlimited [where tail = "[]" and chunks = chunks] by simp
  show ?thesis
    unfolding g by (simp add: sent_bytes_append sent_bytes_map_Sent)
qed

lemma hello_not_blank: "py_strip (pytext ''hello'') \<noteq> []"
  by (simp add: py_strip_def pytext_def py_isspace_def)

theorem synthesis_failure_keeps_prefix_witness:
  "trace (generate_and_stream_elevenlabs_audio
      \<lparr>recv_script = [], peer_takes = None, transcribe = mock_transcribe,
       synthesize = (\<lambda>t. Inr (map Inr [[65], [66]] @ Inl ApiError # [Inr [67]]))\<rparr>
      (pytext ''hello'') \<lparr>send_budget = None, trace = []\<rparr>) =
     [SynthCall (pytext ''hello''), Sent [65], Sent [66]] \<and>
   sent_bytes (trace (generate_and_stream_elevenlabs_audio
      \<lparr>recv_script = [], peer_takes = None, transcribe = mock_transcribe,
       synthesize = (\<lambda>t. Inr (map Inr [[65], [66]] @ Inl ApiError # [Inr [67]]))\<rparr>
      (pytext ''hello'') \<lparr>send_budget = None, trace = []\<rparr>)) = [65, 66]"
proof -
  let ?s = "\<lparr>recv_script = [], peer_takes = None, transcribe = mock_transcribe,
       synthesize = (\<lambda>t. Inr (map Inr [[65], [66 :: byte]] @ Inl ApiError # [Inr [67]]))\<rparr>"
  let ?w = "\<lparr>send_budget = None, trace = []\<rparr>"
  have h2: "synthesize ?s (pytext ''hello'') = Inr (map Inr [[65], [66]] @ Inl ApiError # [Inr [67]])"
    by simp
  have h3: "send_budget ?w = None"
    by simp
  show ?thesis
    using synthesis_failure_keeps_prefix [OF hello_not_blank h2 h3] by simp
qed

theorem empty_chunks_skipped_witness:
  "trace (generate_and_stream_elevenlabs_audio
      \<lparr>recv_script = [], peer_takes = None, transcribe = mock_transcribe,
       synthesize = (\<lambda>t. Inr (map Inr [[65], [], [66]]))\<rparr>
      (pytext ''hello'') \<lparr>send_budget = None, trace = []\<rparr>) =
     [SynthCall (pytext ''hello''), Sent [65], Sent [66]] \<and>
   sent_bytes (trace (generate_and_stream_elevenlabs_audio
      \<lparr>recv_script = [], peer_takes = None, transcribe = mock_transcribe,
       synthesize = (\<lambda>t. Inr (map Inr [[65], [], [66]]))\<rparr>
      (pytext ''hello'') \<lparr>send_budget = None, trace = []\<rparr>)) = [65, 66]"
proof -
  let ?s = "\<lparr>recv_script = [], peer_takes = None, transcribe = mock_transcribe,
       synthesize = (\<lambda>t. Inr (map Inr [[65], [], [66 :: byte]]))\<rparr>"
  let ?w = "\<lparr>send_budget = None, trace = []\<rparr>"
  have h2: "synthesize ?s (pytext ''hello'') = Inr (map Inr [[65], [], [66]])"
    by simp
  have h3: "send_budget ?w = None"
    by simp
  show ?thesis
    using empty_chunks_skipped [OF hello_not_blank h2 h3] by simp
qed

lemma process_conversation_empty: "process_conversation s [] w = w"
  by (simp add: process_conversation_def)

lemma handle_connection_received:
  "receive_audio (recv_script s) [] = Inr (audio, why) \<Longrightarrow>
   handle_connection s =
     Inr (trace (process_conversation s audio \<lparr>send_budget = peer_takes s, trace = []\<rparr>) @ [Closed])"
  by (simp add: handle_connection_def log_event_def)

text \<open>
  C3. When the receive loop ends with an empty buffer, the session makes no call of the
  transcription collaborator and none of the synthesis collaborator, writes no byte to
  the client socket, and closes the connection: its trace is the close alone.
\<close>

theorem empty_audio_short_circuit:
  assumes "receive_audio (recv_script s) [] = Inr ([], why)"
  shows "\<exists>tr. handle_connection s = Inr tr \<and> tr = [Closed] \<and>
           transcribe_calls tr = [] \<and> synth_calls tr = [] \<and> sent_bytes tr = []"
  using handle_connection_received [OF assms] by (simp add: process_conversation_empty)

lemma receive_marker_only:
  "receive_audio (Received END_RECORDING_SIGNAL # rest) buf = Inr (buf, MarkerSeen)"
proof -
  have n: "\<not> bytes_contains END_RECORDING_SIGNAL ([] @ butlast END_RECORDING_SIGNAL)"
    using END_nonempty by (simp add: bytes_contains_short)
  show ?thesis using receive_audio_marker [OF n, of "[]" rest buf] by simp
qed

theorem empty_audio_short_circuit_witness:
  "handle_connection
     \<lparr>recv_script = [Received END_RECORDING_SIGNAL], peer_takes = None,
      transcribe = mock_transcribe, synthesize = mock_synthesize\<rparr> = Inr [Closed]"
proof -
  let ?s = "\<lparr>recv_script = [Received END_RECORDING_SIGNAL], peer_takes = None,
      transcribe = mock_transcribe, synthesize = mock_synthesize\<rparr>"
  have h: "receive_audio (recv_script ?s) [] = Inr ([], MarkerSeen)"
    by (simp only: session.simps receive_marker_only)
  show ?thesis
    using empty_audio_short_circuit [OF h] by blast
qed

text \<open>
  C4. When the call of the transcription collaborator raises, the session's trace is
  that one call followed by the close: the synthesis collaborator is not called, no
  byte is written to the client socket, and the transcription is not tried again.
\<close>

theorem transcription_failure_ends_session:
  assumes "receive_audio (recv_script s) [] = Inr (audio, why)"
    and "audio \<noteq> []"
    and "create_wav_header audio SAMPLE_RATE CHANNELS SAMPLE_WIDTH = Inr wav"
    and "transcribe s wav = Inl e"
  shows "\<exists>tr. handle_connection s = Inr tr \<and> tr = [TranscribeCall wav, Closed] \<and>
           transcribe_calls tr = [wav] \<and> synth_calls tr = [] \<and> sent_bytes tr = []"
proof -
  have "process_conversation s audio \<lparr>send_budget = peer_takes s, trace = []\<rparr> =
        \<lparr>send_budget = peer_takes s, trace = [TranscribeCall wav]\<rparr>"
    using assms(2,3,4) by (simp add: process_conversation_def log_event_def)
  then show ?thesis
    using handle_connection_received [OF assms(1)] by simp
qed

lemma wav_of_two_bytes:
  "create_wav_header [1, 2] SAMPLE_RATE CHANNELS SAMPLE_WIDTH =
     Inr ([82, 73, 70, 70, 38, 0, 0, 0, 87, 65, 86, 69, 102, 109, 116, 32, 16, 0, 0, 0, 1, 0, 1, 0,
           128, 62, 0, 0, 0, 125, 0, 0, 2, 0, 16, 0, 100, 97, 116, 97, 2, 0, 0, 0] @ [1, 2])"
  using create_wav_header_fixed [of "[1, 2]"] by (simp add: ascii_def eval_nat_numeral)

lemma receive_two_bytes_then:
  "receive_audio (Received [1, 2] # rest) [] = receive_audio rest [1, 2]"
proof -
  have "\<not> bytes_contains END_RECORDING_SIGNAL [1, 2]"
    by (rule bytes_contains_short) (simp add: length_END)
  then show ?thesis by simp
qed

theorem transcription_failure_ends_session_witness:
  "handle_connection
     \<lparr>recv_script = [Received [1, 2], Received END_RECORDING_SIGNAL], peer_takes = None,
      transcribe = (\<lambda>wav_data. Inl ApiError), synthesize = mock_synthesize\<rparr> =
   Inr [TranscribeCall
          ([82, 73, 70, 70, 38, 0, 0, 0, 87, 65, 86, 69, 102, 109, 116, 32, 16, 0, 0, 0, 1, 0, 1, 0,
            128, 62, 0, 0, 0, 125, 0, 0, 2, 0, 16, 0, 100, 97, 116, 97, 2, 0, 0, 0] @ [1, 2]),
        Closed]"
proof -
  let ?s = "\<lparr>recv_script = [Received [1, 2], Received END_RECORDING_SIGNAL], peer_takes = None,
      transcribe = (\<lambda>wav_data. Inl ApiError), synthesize = mock_synthesize\<rparr>"
  have h1: "receive_audio (recv_script ?s) [] = Inr ([1, 2], MarkerSeen)"
    by (simp only: session.simps receive_two_bytes_then receive_marker_only)
  have h2: "[1, 2 :: byte] \<noteq> []"
    by simp
  have h4: "transcribe ?s
      ([82, 73, 70, 70, 38, 0, 0, 0, 87, 65, 86, 69, 102, 109, 116, 32, 16, 0, 0, 0, 1, 0, 1, 0,
        128, 62, 0, 0, 0, 125, 0, 0, 2, 0, 16, 0, 100, 97, 116, 97, 2, 0, 0, 0] @ [1, 2]) = Inl ApiError"
    by simp
  show ?thesis
    using transcription_failure_ends_session [OF h1 h2 wav_of_two_bytes h4] by blast
qed

section \<open>The end-to-end scenario\<close>

lemma bytes_contains_set: "bytes_contains sep data \<Longrightarrow> set sep \<subseteq> set data"
  by (auto simp: bytes_contains_iff)

lemma length_e2e_payload: "length e2e_payload = 200"
  by (simp add: e2e_payload_def length_concat sum_list_replicate)

lemma e2e_payload_nonempty: "e2e_payload \<noteq> []"
  using length_e2e_payload by auto

lemma e2e_payload_no_marker: "\<not> bytes_contains END_RECORDING_SIGNAL e2e_payload"
proof
  assume "bytes_contains END_RECORDING_SIGNAL e2e_payload"
  then have "set END_RECORDING_SIGNAL \<subseteq> set e2e_payload"
    by (rule bytes_contains_set)
  moreover have "69 \<in> set END_RECORDING_SIGNAL"
    by (simp add: END_RECORDING_SIGNAL_def ascii_def)
  moreover have "set e2e_payload = {1, 2}"
    by (simp add: e2e_payload_def)
  ultimately show False by auto
qed

lemma e2e_received:
  "receive_audio [Received e2e_payload, Received END_RECORDING_SIGNAL] [] =
     Inr (e2e_payload, MarkerSeen)"
proof -
  have "receive_audio [Received e2e_payload, Received END_RECORDING_SIGNAL] [] =
        receive_audio [Received END_RECORDING_SIGNAL] ([] @ e2e_payload)"
    using e2e_payload_nonempty e2e_payload_no_marker by (simp only: receive_audio.simps if_False)
  then show ?thesis by (simp only: receive_marker_only append_Nil)
qed

lemma e2e_container:
  "create_wav_header e2e_payload SAMPLE_RATE CHANNELS SAMPLE_WIDTH =
     Inr ([82, 73, 70, 70, 236, 0, 0, 0, 87, 65, 86, 69, 102, 109, 116, 32, 16, 0, 0, 0, 1, 0, 1, 0,
           128, 62, 0, 0, 0, 125, 0, 0, 2, 0, 16, 0, 100, 97, 116, 97, 200, 0, 0, 0] @ e2e_payload)"
  using create_wav_header_fixed [of e2e_payload]
  by (simp add: length_e2e_payload ascii_def eval_nat_numeral)


lemma e2e_trace:
  "handle_connection e2e_session =
     Inr [TranscribeCall
            ([82, 73, 70, 70, 236, 0, 0, 0, 87, 65, 86, 69, 102, 109, 116, 32, 16, 0, 0, 0, 1, 0, 1, 0,
              128, 62, 0, 0, 0, 125, 0, 0, 2, 0, 16, 0, 100, 97, 116, 97, 200, 0, 0, 0] @ e2e_payload),
          SynthCall (pytext ''hello''), Sent (ascii ''AA''), Sent (ascii ''BB''), Closed]"
proof -
  let ?wav = "[82, 73, 70, 70, 236, 0, 0, 0, 87, 65, 86, 69, 102, 109, 116, 32, 16, 0, 0, 0, 1, 0, 1, 0,
              128, 62, 0, 0, 0, 125, 0, 0, 2, 0, 16, 0, 100, 97, 116, 97, 200, 0, 0, 0] @ e2e_payload"
  let ?w1 = "\<lparr>send_budget = None, trace = [TranscribeCall ?wav]\<rparr>"
  have r: "receive_audio (recv_script e2e_session) [] = Inr (e2e_payload, MarkerSeen)"
    unfolding e2e_session_def by (simp only: session.select_convs e2e_received)
  have s: "synthesize e2e_session (pytext ''hello'') =
             Inr (map Inr [ascii ''AA'', ascii ''BB''] @ [])"
    by (simp add: e2e_session_def mock_synthesize_def)
  have b: "send_budget ?w1 = None" by simp
  have g: "generate_and_stream_elevenlabs_audio e2e_session (pytext ''hello'') ?w1 =
       ?w1\<lparr>trace := trace ?w1 @ SynthCall (pytext ''hello'') #
            map Sent (filter (\<lambda>c. c \<noteq> []) [ascii ''AA'', ascii ''BB''])\<rparr>"
    by (rule stream_unlimited [OF hello_not_blank s b]) simp
  have p: "process_conversation e2e_session e2e_payload \<lparr>send_budget = peer_takes e2e_session, trace = []\<rparr> =
       \<lparr>send_budget = None,
        trace = [TranscribeCall ?wav, SynthCall (pytext ''hello''), Sent (ascii ''AA''), Sent (ascii ''BB'')]\<rparr>"
    unfolding process_conversation_def e2e_container
    using e2e_payload_nonempty g
    by (simp add: e2e_session_def mock_transcribe_def log_event_def Let_def ascii_def)
  show ?thesis
    unfolding handle_connection_received [OF r] p by simp
qed

text \<open>
  C7 as stated fails on the size of the container: in the scenario the transcription
  collaborator is handed the 44-byte header followed by the 200-byte payload, which is
  244 bytes, not 636.
\<close>

theorem e2e_container_is_244_bytes:
  "handle_connection e2e_session =
     Inr [TranscribeCall
            ([82, 73, 70, 70, 236, 0, 0, 0, 87, 65, 86, 69, 102, 109, 116, 32, 16, 0, 0, 0, 1, 0, 1, 0,
              128, 62, 0, 0, 0, 125, 0, 0, 2, 0, 16, 0, 100, 97, 116, 97, 200, 0, 0, 0] @ e2e_payload),
          SynthCall (pytext ''hello''), Sent (ascii ''AA''), Sent (ascii ''BB''), Closed] \<and>
   length ([82, 73, 70, 70, 236, 0, 0, 0, 87, 65, 86, 69, 102, 109, 116, 32, 16, 0, 0, 0, 1, 0, 1, 0,
            128, 62, 0, 0, 0, 125, 0, 0, 2, 0, 16, 0, 100, 97, 116, 97, 200, 0, 0, 0 :: byte] @ e2e_payload)
     \<noteq> 636"
  by (simp add: e2e_trace length_e2e_payload)

text \<open>
  C7 (as amended). The client sends \<open>b"\x01\x02" * 100\<close> (200 bytes) and then the
  marker. The server builds a 244-byte container, the 44-byte header followed by the
  200-byte payload, and hands it to the transcription collaborator; the mock
  transcription answers \<open>hello\<close>, which is handed to the synthesis collaborator; the mock
  synthesis yields \<open>AA\<close> and \<open>BB\<close>; the client receives exactly \<open>AABB\<close>, and then the
  connection is closed.
\<close>

theorem e2e_scenario:
  "handle_connection e2e_session =
     Inr [TranscribeCall
            ([82, 73, 70, 70, 236, 0, 0, 0, 87, 65, 86, 69, 102, 109, 116, 32, 16, 0, 0, 0, 1, 0, 1, 0,
              128, 62, 0, 0, 0, 125, 0, 0, 2, 0, 16, 0, 100, 97, 116, 97, 200, 0, 0, 0] @ e2e_payload),
          SynthCall (pytext ''hello''), Sent (ascii ''AA''), Sent (ascii ''BB''), Closed] \<and>
   create_wav_header e2e_payload SAMPLE_RATE CHANNELS SAMPLE_WIDTH =
     Inr ([82, 73, 70, 70, 236, 0, 0, 0, 87, 65, 86, 69, 102, 109, 116, 32, 16, 0, 0, 0, 1, 0, 1, 0,
           128, 62, 0, 0, 0, 125, 0, 0, 2, 0, 16, 0, 100, 97, 116, 97, 200, 0, 0, 0] @ e2e_payload) \<and>
   length e2e_payload = 200 \<and>
   length ([82, 73, 70, 70, 236, 0, 0, 0, 87, 65, 86, 69, 102, 109, 116, 32, 16, 0, 0, 0, 1, 0, 1, 0,
            128, 62, 0, 0, 0, 125, 0, 0, 2, 0, 16, 0, 100, 97, 116, 97, 200, 0, 0, 0 :: byte] @ e2e_payload)
     = 244 \<and>
   sent_bytes
     [TranscribeCall
        ([82, 73, 70, 70, 236, 0, 0, 0, 87, 65, 86, 69, 102, 109, 116, 32, 16, 0, 0, 0, 1, 0, 1, 0,
          128, 62, 0, 0, 0, 125, 0, 0, 2, 0, 16, 0, 100, 97, 116, 97, 200, 0, 0, 0] @ e2e_payload),
      SynthCall (pytext ''hello''), Sent (ascii ''AA''), Sent (ascii ''BB''), Closed] = ascii ''AABB''"
  by (simp add: e2e_trace e2e_container length_e2e_payload ascii_def)

section \<open>Read failures and the accept loop\<close>

lemma split_from_nonempty: "split_from sep data \<noteq> []"
  by (induction sep data rule: split_from.induct) (auto split: list.splits)

lemma receive_audio_total: "\<exists>audio why. receive_audio script buf = Inr (audio, why)"
proof (induction script buf rule: receive_audio.induct)
  case (1 audio_buffer)
  then show ?case by simp
next
  case (2 rs audio_buffer)
  then show ?case by simp
next
  case (3 data rs audio_buffer)
  obtain p ps where "split_from END_RECORDING_SIGNAL data = p # ps"
    using split_from_nonempty by (cases "split_from END_RECORDING_SIGNAL data") auto
  then show ?case
    using 3 by (simp add: bytes_split_def END_nonempty index0_def)
qed

lemma handle_connection_total: "\<exists>tr. handle_connection s = Inr tr \<and> last tr = Closed"
proof -
  obtain audio why where "receive_audio (recv_script s) [] = Inr (audio, why)"
    using receive_audio_total by blast
  then show ?thesis
    using handle_connection_received by simp
qed

lemma serve_total: "\<exists>trs. serve ss = Inr trs \<and> length trs = length ss"
proof (induction ss)
  case Nil
  then show ?case by simp
next
  case (Cons s ss)
  obtain tr where "handle_connection s = Inr tr"
    using handle_connection_total by blast
  then show ?case using Cons by auto
qed

lemma process_conversation_script:
  "process_conversation (s\<lparr>recv_script := r\<rparr>) audio w = process_conversation s audio w"
  by (auto simp: process_conversation_def generate_and_stream_elevenlabs_audio_def Let_def
        split: sum.splits)

lemma transcribe_calls_relay: "transcribe_calls (trace (relay st w)) = transcribe_calls (trace w)"
proof (induction st w rule: relay.induct)
  case (1 w)
  then show ?case by simp
next
  case (2 e rest w)
  then show ?case by simp
next
  case (3 chunk rest w)
  have s: "transcribe_calls (trace (snd (sendall w chunk))) = transcribe_calls (trace w)"
    by (simp add: sendall_def log_event_def transcribe_calls_append split: option.splits)
  show ?case
  proof (cases "chunk = []")
    case True
    then show ?thesis using 3 by simp
  next
    case False
    obtain r w' where sw: "sendall w chunk = (r, w')" by (cases "sendall w chunk")
    show ?thesis
    proof (cases r)
      case None
      then show ?thesis using False sw s "3.IH"(1) [OF False sw [symmetric]] by simp
    next
      case (Some e)
      then show ?thesis using False sw s by simp
    qed
  qed
qed

lemma transcribe_calls_stream:
  "transcribe_calls (trace (generate_and_stream_elevenlabs_audio s t w)) = transcribe_calls (trace w)"
  by (simp add: generate_and_stream_elevenlabs_audio_def Let_def transcribe_calls_relay
        log_event_def transcribe_calls_append split: sum.splits)

lemma transcribe_calls_process:
  assumes "audio \<noteq> []" "create_wav_header audio SAMPLE_RATE CHANNELS SAMPLE_WIDTH = Inr wav"
  shows "transcribe_calls (trace (process_conversation s audio \<lparr>send_budget = b, trace = []\<rparr>)) = [wav]"
  using assms
  by (simp add: process_conversation_def Let_def transcribe_calls_stream log_event_def
        split: sum.splits)

text \<open>
  C8 (as amended). When a read on the client socket fails during receive, the receive
  loop stops and the session goes on exactly as if the peer had closed the connection
  at that point: the audio accumulated so far is processed. If nothing was
  accumulated no collaborator is called; otherwise the transcription collaborator is
  called with the container of the partial audio. The connection is then closed and the
  server goes on to the next connections: the failure does not end the server.
\<close>

theorem read_failure_processes_partial_audio:
  assumes "recv_script s = map Received chunks @ RecvFailed # rest"
    and "\<forall>c\<in>set chunks. c \<noteq> [] \<and> \<not> bytes_contains END_RECORDING_SIGNAL c"
  shows "\<exists>tr. handle_connection s = Inr tr \<and>
           handle_connection (s\<lparr>recv_script := map Received chunks\<rparr>) = Inr tr \<and>
           last tr = Closed \<and>
           (chunks = [] \<longrightarrow> tr = [Closed]) \<and>
           (\<forall>wav. chunks \<noteq> [] \<and>
              create_wav_header (concat chunks) SAMPLE_RATE CHANNELS SAMPLE_WIDTH = Inr wav \<longrightarrow>
              transcribe_calls tr = [wav]) \<and>
           (\<forall>ss. \<exists>trs. serve (s # ss) = Inr (tr # trs) \<and> length trs = length ss)"
proof -
  let ?audio = "concat chunks"
  let ?w = "process_conversation s ?audio \<lparr>send_budget = peer_takes s, trace = []\<rparr>"
  let ?tr = "trace ?w @ [Closed]"
  have r1: "receive_audio (recv_script s) [] = Inr (?audio, ReadError)"
    unfolding assms(1) receive_audio_chunks [OF assms(2)] by simp
  have r2: "receive_audio (recv_script (s\<lparr>recv_script := map Received chunks\<rparr>)) [] =
            Inr (?audio, PeerClosed)"
    using receive_audio_chunks [OF assms(2), of "[]" "[]"] by simp
  have h1: "handle_connection s = Inr ?tr"
    using handle_connection_received [OF r1] .
  have h2: "handle_connection (s\<lparr>recv_script := map Received chunks\<rparr>) = Inr ?tr"
    using handle_connection_received [OF r2] by (simp add: process_conversation_script)
  have e: "chunks = [] \<longrightarrow> ?tr = [Closed]"
    by (simp add: process_conversation_empty)
  have ne: "?audio \<noteq> []" if "chunks \<noteq> []"
    using that assms(2) by (cases chunks) auto
  have t: "\<forall>wav. chunks \<noteq> [] \<and>
              create_wav_header ?audio SAMPLE_RATE CHANNELS SAMPLE_WIDTH = Inr wav \<longrightarrow>
              transcribe_calls ?tr = [wav]"
    using ne by (auto simp: transcribe_calls_append transcribe_calls_process)
  have sv: "\<forall>ss. \<exists>trs. serve (s # ss) = Inr (?tr # trs) \<and> length trs = length ss"
  proof
    fix ss
    obtain trs where "serve ss = Inr trs" "length trs = length ss"
      using serve_total by blast
    then show "\<exists>trs. serve (s # ss) = Inr (?tr # trs) \<and> length trs = length ss"
      using h1 by simp
  qed
  have l: "last ?tr = Closed" by simp
  show ?thesis
    using h1 h2 l e t sv by blast
qed

text \<open>
  C8 as stated fails: after two bytes of audio and a failed read, the session is not
  abandoned; both collaborators are called with the partial audio and the response is
  written to the socket.
\<close>

theorem read_failure_still_calls_collaborators:
  "handle_connection
     \<lparr>recv_script = [Received [1, 2], RecvFailed], peer_takes = None,
      transcribe = mock_transcribe, synthesize = mock_synthesize\<rparr> =
   Inr [TranscribeCall
          ([82, 73, 70, 70, 38, 0, 0, 0, 87, 65, 86, 69, 102, 109, 116, 32, 16, 0, 0, 0, 1, 0, 1, 0,
            128, 62, 0, 0, 0, 125, 0, 0, 2, 0, 16, 0, 100, 97, 116, 97, 2, 0, 0, 0] @ [1, 2]),
        SynthCall (pytext ''hello''), Sent (ascii ''AA''), Sent (ascii ''BB''), Closed]"
proof -
  let ?s = "\<lparr>recv_script = [Received [1, 2], RecvFailed], peer_takes = None,
      transcribe = mock_transcribe, synthesize = mock_synthesize\<rparr>"
  let ?wav = "[82, 73, 70, 70, 38, 0, 0, 0, 87, 65, 86, 69, 102, 109, 116, 32, 16, 0, 0, 0, 1, 0, 1, 0,
            128, 62, 0, 0, 0, 125, 0, 0, 2, 0, 16, 0, 100, 97, 116, 97, 2, 0, 0, 0] @ [1, 2 :: byte]"
  let ?w1 = "\<lparr>send_budget = None, trace = [TranscribeCall ?wav]\<rparr>"
  have r: "receive_audio (recv_script ?s) [] = Inr ([1, 2], ReadError)"
    unfolding session.select_convs receive_two_bytes_then by simp
  have sy: "synthesize ?s (pytext ''hello'') = Inr (map Inr [ascii ''AA'', ascii ''BB''] @ [])"
    by (simp add: mock_synthesize_def)
  have b: "send_budget ?w1 = None" by simp
  have g: "generate_and_stream_elevenlabs_audio ?s (pytext ''hello'') ?w1 =
       ?w1\<lparr>trace := trace ?w1 @ SynthCall (pytext ''hello'') #
            map Sent (filter (\<lambda>c. c \<noteq> []) [ascii ''AA'', ascii ''BB''])\<rparr>"
    by (rule stream_unlimited [OF hello_not_blank sy b]) simp
  have p: "process_conversation ?s [1, 2] \<lparr>send_budget = peer_takes ?s, trace = []\<rparr> =
       \<lparr>send_budget = None,
        trace = [TranscribeCall ?wav, SynthCall (pytext ''hello''), Sent (ascii ''AA''), Sent (ascii ''BB'')]\<rparr>"
    unfolding process_conversation_def wav_of_two_bytes
    using g by (simp add: mock_transcribe_def log_event_def Let_def ascii_def)
  show ?thesis
    unfolding handle_connection_received [OF r] p by simp
qed

theorem read_failure_processes_partial_audio_witness:
  "\<exists>tr. handle_connection
           \<lparr>recv_script = [Received [1, 2], RecvFailed], peer_takes = None,
            transcribe = mock_transcribe, synthesize = mock_synthesize\<rparr> = Inr tr \<and>
         handle_connection
           \<lparr>recv_script = [Received [1, 2]], peer_takes = None,
            transcribe = mock_transcribe, synthesize = mock_synthesize\<rparr> = Inr tr \<and>
         last tr = Closed \<and>
         (\<exists>trs. serve [\<lparr>recv_script = [Received [1, 2], RecvFailed], peer_takes = None,
                          transcribe = mock_transcribe, synthesize = mock_synthesize\<rparr>,
                        e2e_session] = Inr (tr # trs) \<and> length trs = 1)"
proof -
  let ?s = "\<lparr>recv_script = [Received [1, 2], RecvFailed], peer_takes = None,
      transcribe = mock_transcribe, synthesize = mock_synthesize\<rparr>"
  have h1: "recv_script ?s = map Received [[1, 2]] @ RecvFailed # []"
    by simp
  have h2: "\<forall>c\<in>set [[1, 2 :: byte]]. c \<noteq> [] \<and> \<not> bytes_contains END_RECORDING_SIGNAL c"
    by (simp add: bytes_contains_short length_END del: bytes_contains.simps)
  from read_failure_processes_partial_audio [OF h1 h2] obtain tr where
    a: "handle_connection ?s = Inr tr"
    and b: "handle_connection (?s\<lparr>recv_script := map Received [[1, 2]]\<rparr>) = Inr tr"
    and c: "last tr = Closed"
    and d: "\<forall>ss. \<exists>trs. serve (?s # ss) = Inr (tr # trs) \<and> length trs = length ss"
    by blast
  from d have "\<exists>trs. serve (?s # [e2e_session]) = Inr (tr # trs) \<and> length trs = length [e2e_session]"
    by blast
  then have e: "\<exists>trs. serve [?s, e2e_session] = Inr (tr # trs) \<and> length trs = 1"
    by simp
  from b have b': "handle_connection \<lparr>recv_script = [Received [1, 2]], peer_takes = None,
            transcribe = mock_transcribe, synthesize = mock_synthesize\<rparr> = Inr tr"
    by simp
  show ?thesis
    using a b' c e by blast
qed

end
